theory Spec2Isabelle
  imports Complex_Main "HOL-Library.Product_Lexorder"
begin

section \<open>Healthcare IoT microprocessor: DVFS analysis and system wiring\<close>

text \<open>
  The development embeds two source files: the results analysis
  (\<^verbatim>\<open>Phase3_Performance_Analysis/analyze_results.py\<close>) and the gem5 system
  configuration (\<^verbatim>\<open>Phase2_Implementation/gem5_configs/healthcare_iot_config.py\<close>).

  Numbers. Python's \<^verbatim>\<open>float\<close> values are read as exact rationals (\<^typ>\<open>rat\<close>) and the
  arithmetic on them as exact arithmetic: rounding errors of the binary format are outside
  the model. In the generator and the analysis the values stay far inside the range of a
  float; the power computation on arbitrary operands is also given with that range, its
  infinities, NaN and the \<^verbatim>\<open>OverflowError\<close> of \<^verbatim>\<open>**\<close>. Python's \<^verbatim>\<open>int\<close> is
  \<^typ>\<open>int\<close>.
\<close>

subsection \<open>Errors\<close>

text \<open>The exceptions the modelled statements can raise.\<close>

datatype error = ZeroDivisionError | ValueError | OverflowError

subsection \<open>The power model of the sample generator\<close>

text \<open>
  Lines 77--80 of \<^verbatim>\<open>generate_sample_dvfs_data\<close>:
  \<^verbatim>\<open>
    # Power model: P = C*V^2*f + leakage
    dynamic_power = (voltage ** 2) * frequency * base_ipc
    static_power = voltage * 5
    avg_power = dynamic_power + static_power
  \<close>
  The three assignments are named after the local variables they set.
\<close>

definition dynamic_power_of :: "rat \<Rightarrow> rat \<Rightarrow> rat \<Rightarrow> rat" where
  "dynamic_power_of voltage frequency base_ipc = (voltage ^ 2) * frequency * base_ipc"

definition static_power_of :: "rat \<Rightarrow> rat" where
  "static_power_of voltage = voltage * 5"

definition avg_power_of :: "rat \<Rightarrow> rat \<Rightarrow> rat \<Rightarrow> rat" where
  "avg_power_of voltage frequency base_ipc =
     dynamic_power_of voltage frequency base_ipc + static_power_of voltage"

text \<open>
  The same three statements on arbitrary float operands, with the range of a float. A
  float is a finite value, an infinity with its sign (\<open>Infinity True\<close> is \<open>+inf\<close>) or NaN.
  An arithmetic result whose exact value has a magnitude of \<open>2\<^sup>1\<^sup>0\<^sup>2\<^sup>4 - 2\<^sup>9\<^sup>7\<^sup>0\<close> or more rounds
  to an infinity.
\<close>

datatype pyfloat = Finite rat | Infinity bool | NaN

definition overflow_bound :: rat where
  "overflow_bound = 2 ^ 1024 - 2 ^ 970"

definition float_of :: "rat \<Rightarrow> pyfloat" where
  "float_of x =
     (if overflow_bound \<le> x then Infinity True
      else if x \<le> - overflow_bound then Infinity False
      else Finite x)"

text \<open>
  \<^verbatim>\<open>x * y\<close> and \<^verbatim>\<open>x + y\<close> on floats never raise: an overflow gives an infinity,
  infinity times zero and the sum of opposite infinities give NaN.
\<close>

fun float_mul :: "pyfloat \<Rightarrow> pyfloat \<Rightarrow> pyfloat" where
  "float_mul (Finite a) (Finite b) = float_of (a * b)"
| "float_mul (Finite a) (Infinity t) = (if a = 0 then NaN else Infinity (t = (0 < a)))"
| "float_mul (Infinity s) (Finite b) = (if b = 0 then NaN else Infinity (s = (0 < b)))"
| "float_mul (Infinity s) (Infinity t) = Infinity (s = t)"
| "float_mul NaN y = NaN"
| "float_mul x NaN = NaN"

fun float_add :: "pyfloat \<Rightarrow> pyfloat \<Rightarrow> pyfloat" where
  "float_add (Finite a) (Finite b) = float_of (a + b)"
| "float_add (Finite a) (Infinity t) = Infinity t"
| "float_add (Infinity s) (Finite b) = Infinity s"
| "float_add (Infinity s) (Infinity t) = (if s = t then Infinity s else NaN)"
| "float_add NaN y = NaN"
| "float_add x NaN = NaN"

text \<open>
  \<^verbatim>\<open>x ** 2\<close> on a float raises \<^verbatim>\<open>OverflowError\<close> when the square of a finite \<open>x\<close>
  is out of range; the square of an infinity is \<open>+inf\<close>.
\<close>

fun float_square :: "pyfloat \<Rightarrow> error + pyfloat" where
  "float_square (Finite x) =
     (if overflow_bound \<le> x ^ 2 then Inl OverflowError else Inr (Finite (x ^ 2)))"
| "float_square (Infinity s) = Inr (Infinity True)"
| "float_square NaN = Inr NaN"

text \<open>
  Lines 78--80 as one computation with its outcome, \<open>(dynamic_power, static_power,
  avg_power)\<close> or the exception. No statement looks at the sign of an operand.
\<close>

definition power_model ::
  "pyfloat \<Rightarrow> pyfloat \<Rightarrow> pyfloat \<Rightarrow> error + (pyfloat \<times> pyfloat \<times> pyfloat)" where
  "power_model voltage frequency base_ipc =
     (case float_square voltage of
        Inl e \<Rightarrow> Inl e
      | Inr squared \<Rightarrow>
          (let dynamic_power = float_mul (float_mul squared frequency) base_ipc;
               static_power = float_mul voltage (Finite 5);
               avg_power = float_add dynamic_power static_power
           in Inr (dynamic_power, static_power, avg_power)))"

text \<open>
  The power model as the specification words it, with the capacitance constant \<open>C\<close> and the
  leakage coefficient \<open>k\<close> as parameters: \<open>dynamic = C \<sqdot> voltage\<^sup>2 \<sqdot> frequency \<sqdot> ipc\<close>,
  \<open>static = k \<sqdot> voltage\<close>, \<open>total = dynamic + static\<close>.
\<close>

definition spec_power :: "rat \<Rightarrow> rat \<Rightarrow> rat \<Rightarrow> rat \<Rightarrow> rat \<Rightarrow> rat \<times> rat \<times> rat" where
  "spec_power C k voltage frequency ipc =
     (C * voltage ^ 2 * frequency * ipc,
      k * voltage,
      C * voltage ^ 2 * frequency * ipc + k * voltage)"

subsection \<open>Result records\<close>

text \<open>
  One entry of the results list is a dictionary with the keys \<^verbatim>\<open>voltage\<close>,
  \<^verbatim>\<open>frequency\<close>, \<^verbatim>\<open>workload\<close> and \<^verbatim>\<open>metrics\<close>, the last one a dictionary
  of its own. Field \<open>r_k\<close> is the key \<open>k\<close> of the entry, field \<open>m_k\<close> the key \<open>k\<close> of its
  metrics (the prefix keeps the names of the source's local variables free).
\<close>

record metrics =
  m_ipc :: rat
  m_cpi :: rat
  m_avg_power :: rat
  m_peak_power :: rat
  m_total_energy :: rat
  m_energy_per_inst :: rat
  m_sim_insts :: int
  m_sim_seconds :: rat
  m_icache_hit_rate :: rat
  m_dcache_hit_rate :: rat

record result =
  r_voltage :: rat
  r_frequency :: rat
  r_workload :: string
  r_metrics :: metrics

subsection \<open>Library functions the source calls\<close>

text \<open>
  Python's \<^verbatim>\<open>round(x, ndigits)\<close>: the nearest multiple of \<open>10\<^sup>-\<^sup>n\<close>, a tie going to the
  even one.
\<close>

definition round_half_even :: "rat \<Rightarrow> int" where
  "round_half_even y =
     (let f = \<lfloor>y\<rfloor>; d = y - of_int f
      in if d < 1 / 2 then f else if 1 / 2 < d then f + 1 else if even f then f else f + 1)"

definition py_round :: "rat \<Rightarrow> nat \<Rightarrow> rat" where
  "py_round x ndigits = of_int (round_half_even (x * 10 ^ ndigits)) / 10 ^ ndigits"

text \<open>
  NumPy's global random generator is hidden state: it is made explicit as the sequence of
  unit samples it will deliver, each in \<open>[0, 1)\<close>. \<^verbatim>\<open>np.random.uniform(low, high)\<close> takes
  the next sample \<open>u\<close>, returns \<open>low + (high - low) \<sqdot> u\<close> and leaves the rest of the
  sequence.
\<close>

type_synonym rng = "nat \<Rightarrow> rat"

definition np_random_uniform :: "rat \<Rightarrow> rat \<Rightarrow> rng \<Rightarrow> rat \<times> rng" where
  "np_random_uniform low high g = (low + (high - low) * g 0, (\<lambda>n. g (Suc n)))"

text \<open>
  \<^verbatim>\<open>np.mean\<close> of a list of numbers. Its one call site is guarded by
  \<^verbatim>\<open>if active_results:\<close>, so it never sees the empty list.
\<close>

definition np_mean :: "rat list \<Rightarrow> rat" where
  "np_mean xs = sum_list xs / of_nat (length xs)"

text \<open>
  \<^verbatim>\<open>np.argmin\<close> and \<^verbatim>\<open>np.argmax\<close> scan the sequence once and keep the index of the
  first occurrence of the extreme value; on an empty sequence they raise
  \<^verbatim>\<open>ValueError\<close>. The scan carries the next index, the best value and its index.
\<close>

fun argmin_scan :: "rat list \<Rightarrow> nat \<Rightarrow> rat \<Rightarrow> nat \<Rightarrow> nat" where
  "argmin_scan [] i best best_idx = best_idx"
| "argmin_scan (x # xs) i best best_idx =
     (if x < best then argmin_scan xs (Suc i) x i else argmin_scan xs (Suc i) best best_idx)"

fun argmax_scan :: "rat list \<Rightarrow> nat \<Rightarrow> rat \<Rightarrow> nat \<Rightarrow> nat" where
  "argmax_scan [] i best best_idx = best_idx"
| "argmax_scan (x # xs) i best best_idx =
     (if best < x then argmax_scan xs (Suc i) x i else argmax_scan xs (Suc i) best best_idx)"

definition np_argmin :: "rat list \<Rightarrow> error + nat" where
  "np_argmin xs = (case xs of [] \<Rightarrow> Inl ValueError | x # rest \<Rightarrow> Inr (argmin_scan rest 1 x 0))"

definition np_argmax :: "rat list \<Rightarrow> error + nat" where
  "np_argmax xs = (case xs of [] \<Rightarrow> Inl ValueError | x # rest \<Rightarrow> Inr (argmax_scan rest 1 x 0))"

subsection \<open>The sample data generator\<close>

text \<open>
  \<^verbatim>\<open>generate_sample_dvfs_data\<close>, lines 49--116. The two tables it loops over:
\<close>

definition dvfs_points :: "(rat \<times> rat) list" where
  "dvfs_points = [(0.6, 50), (0.7, 100), (0.8, 200), (0.9, 400), (1.0, 600), (1.2, 800)]"

definition workloads :: "string list" where
  "workloads = [''healthcare_monitor_test'', ''intensive_ecg_processing'',
                ''burst_transmission'', ''mixed_workload'',
                ''idle_scenario'', ''stress_test'']"

text \<open>
  Lines 67--75, the \<open>ipc\<close> of a row:
  \<^verbatim>\<open>
    base_ipc = 0.65 + (frequency / 800) * 0.20
    if workload == "intensive_ecg_processing": base_ipc *= 0.95
    elif workload == "idle_scenario":          base_ipc *= 0.30
    elif workload == "stress_test":            base_ipc *= 1.05
  \<close>
\<close>

definition base_ipc_of :: "rat \<Rightarrow> string \<Rightarrow> rat" where
  "base_ipc_of frequency workload =
     (let base_ipc = 0.65 + (frequency / 800) * 0.20
      in if workload = ''intensive_ecg_processing'' then base_ipc * 0.95
         else if workload = ''idle_scenario'' then base_ipc * 0.30
         else if workload = ''stress_test'' then base_ipc * 1.05
         else base_ipc)"

text \<open>Lines 83--88, the instruction count of a row.\<close>

definition sim_insts_of :: "string \<Rightarrow> int" where
  "sim_insts_of workload =
     (if workload = ''stress_test'' then 500000
      else if workload = ''idle_scenario'' then 50000
      else 200000)"

text \<open>
  Lines 90--92, time and energy of a row. Each division raises
  \<^verbatim>\<open>ZeroDivisionError\<close> on a zero divisor:
  \<^verbatim>\<open>
    sim_seconds = sim_insts / (frequency * 1e6 * base_ipc)
    total_energy = avg_power * sim_seconds * 1000  # uJ
    energy_per_inst = total_energy / sim_insts
  \<close>
\<close>

definition sim_seconds_of :: "int \<Rightarrow> rat \<Rightarrow> rat \<Rightarrow> error + rat" where
  "sim_seconds_of sim_insts frequency base_ipc =
     (if frequency * 1000000 * base_ipc = 0 then Inl ZeroDivisionError
      else Inr (of_int sim_insts / (frequency * 1000000 * base_ipc)))"

definition total_energy_of :: "rat \<Rightarrow> rat \<Rightarrow> rat" where
  "total_energy_of avg_power sim_seconds = avg_power * sim_seconds * 1000"

definition energy_per_inst_of :: "rat \<Rightarrow> int \<Rightarrow> error + rat" where
  "energy_per_inst_of total_energy sim_insts =
     (if sim_insts = 0 then Inl ZeroDivisionError
      else Inr (total_energy / of_int sim_insts))"

text \<open>
  The three statements in sequence, from the average power, the instruction count, the
  frequency and the \<open>ipc\<close> to \<open>(sim_seconds, total_energy, energy_per_inst)\<close>.
\<close>

definition derive_energy :: "rat \<Rightarrow> int \<Rightarrow> rat \<Rightarrow> rat \<Rightarrow> error + (rat \<times> rat \<times> rat)" where
  "derive_energy avg_power sim_insts frequency base_ipc =
     (case sim_seconds_of sim_insts frequency base_ipc of
        Inl e \<Rightarrow> Inl e
      | Inr sim_seconds \<Rightarrow>
          (let total_energy = total_energy_of avg_power sim_seconds
           in case energy_per_inst_of total_energy sim_insts of
                Inl e \<Rightarrow> Inl e
              | Inr energy_per_inst \<Rightarrow> Inr (sim_seconds, total_energy, energy_per_inst)))"

text \<open>
  The body of the inner loop, lines 66--114: one entry for one operating point and one
  workload, drawing the two cache hit rates from the random generator (lines 95--96) and
  rounding every metric as it is stored (lines 103--112). \<^verbatim>\<open>1/base_ipc\<close> of line 104
  is the last division of the body.
\<close>

definition sample_result :: "rat \<Rightarrow> rat \<Rightarrow> string \<Rightarrow> rng \<Rightarrow> error + (result \<times> rng)" where
  "sample_result voltage frequency workload g =
     (let base_ipc = base_ipc_of frequency workload;
          avg_power = avg_power_of voltage frequency base_ipc;
          sim_insts = sim_insts_of workload
      in case derive_energy avg_power sim_insts frequency base_ipc of
           Inl e \<Rightarrow> Inl e
         | Inr (sim_seconds, total_energy, energy_per_inst) \<Rightarrow>
             (let (jitter_i, g1) = np_random_uniform (- 0.01) 0.01 g;
                  icache_hit = 0.945 + jitter_i;
                  (jitter_d, g2) = np_random_uniform (- 0.01) 0.01 g1;
                  dcache_hit = 0.955 + jitter_d
              in if base_ipc = 0 then Inl ZeroDivisionError
                 else Inr (\<lparr> r_voltage = voltage, r_frequency = frequency,
                             r_workload = workload,
                             r_metrics = \<lparr> m_ipc = py_round base_ipc 3,
                                           m_cpi = py_round (1 / base_ipc) 3,
                                           m_avg_power = py_round avg_power 1,
                                           m_peak_power = py_round (avg_power * 1.3) 1,
                                           m_total_energy = py_round total_energy 2,
                                           m_energy_per_inst = py_round energy_per_inst 4,
                                           m_sim_insts = sim_insts,
                                           m_sim_seconds = py_round sim_seconds 6,
                                           m_icache_hit_rate = py_round icache_hit 4,
                                           m_dcache_hit_rate = py_round dcache_hit 4 \<rparr> \<rparr>,
                           g2)))"

text \<open>
  The inner loop over the workloads and the outer loop over the operating points; both
  append to \<^verbatim>\<open>results\<close> and advance the random generator, and an exception ends them.
\<close>

fun workload_loop ::
  "rat \<Rightarrow> rat \<Rightarrow> string list \<Rightarrow> result list \<times> rng \<Rightarrow> error + (result list \<times> rng)" where
  "workload_loop voltage frequency [] (results, g) = Inr (results, g)"
| "workload_loop voltage frequency (workload # rest) (results, g) =
     (case sample_result voltage frequency workload g of
        Inl e \<Rightarrow> Inl e
      | Inr (r, g') \<Rightarrow> workload_loop voltage frequency rest (results @ [r], g'))"

fun point_loop :: "(rat \<times> rat) list \<Rightarrow> result list \<times> rng \<Rightarrow> error + (result list \<times> rng)" where
  "point_loop [] s = Inr s"
| "point_loop ((voltage, frequency) # rest) s =
     (case workload_loop voltage frequency workloads s of
        Inl e \<Rightarrow> Inl e
      | Inr s' \<Rightarrow> point_loop rest s')"

definition generate_sample_dvfs_data :: "rng \<Rightarrow> error + (result list \<times> rng)" where
  "generate_sample_dvfs_data g = point_loop dvfs_points ([], g)"

text \<open>The key of an entry, and an entry with its two random fields blanked.\<close>

definition record_key :: "result \<Rightarrow> rat \<times> rat \<times> string" where
  "record_key r = (r_voltage r, r_frequency r, r_workload r)"

definition without_hit_rates :: "result \<Rightarrow> result" where
  "without_hit_rates r =
     r\<lparr> r_metrics := (r_metrics r)\<lparr> m_icache_hit_rate := 0, m_dcache_hit_rate := 0 \<rparr> \<rparr>"

subsection \<open>Energy per instruction across the operating points\<close>

text \<open>
  \<^verbatim>\<open>plot_energy_efficiency\<close>, lines 152--204, without the drawing. Line 159,
  \<^verbatim>\<open>sorted(list(set([(r["voltage"], r["frequency"]) for r in results])))\<close>: the
  operating points that occur in the results, each once, in the order of Python's tuples
  (by voltage, then by frequency).
\<close>

definition dvfs_points_of :: "result list \<Rightarrow> (rat \<times> rat) list" where
  "dvfs_points_of results =
     sorted_list_of_set (set (map (\<lambda>r. (r_voltage r, r_frequency r)) results))"

text \<open>
  Lines 165--177, the loop that fills the three parallel lists \<^verbatim>\<open>frequencies\<close>,
  \<^verbatim>\<open>voltages\<close> and \<^verbatim>\<open>avg_epi\<close>:
  \<^verbatim>\<open>
    for voltage, frequency in dvfs_points:
        point_results = [r for r in results
                         if r["voltage"] == voltage and r["frequency"] == frequency]
        active_results = [r for r in point_results if r["workload"] != "idle_scenario"]
        if active_results:
            epi = np.mean([r["metrics"]["energy_per_inst"] for r in active_results])
            frequencies.append(frequency); voltages.append(voltage); avg_epi.append(epi)
  \<close>
\<close>

fun epi_loop ::
  "result list \<Rightarrow> (rat \<times> rat) list \<Rightarrow> rat list \<times> rat list \<times> rat list
     \<Rightarrow> rat list \<times> rat list \<times> rat list" where
  "epi_loop results [] acc = acc"
| "epi_loop results ((voltage, frequency) # rest) (frequencies, voltages, avg_epi) =
     (let point_results =
            filter (\<lambda>r. r_voltage r = voltage \<and> r_frequency r = frequency) results;
          active_results = filter (\<lambda>r. r_workload r \<noteq> ''idle_scenario'') point_results
      in if active_results \<noteq> []
         then epi_loop results rest
                (frequencies @ [frequency], voltages @ [voltage],
                 avg_epi @ [np_mean (map (\<lambda>r. m_energy_per_inst (r_metrics r)) active_results)])
         else epi_loop results rest (frequencies, voltages, avg_epi))"

text \<open>
  The whole function: the three lists and \<^verbatim>\<open>optimal_idx = np.argmin(avg_epi)\<close> (line
  197), the bar it outlines in red. \<^verbatim>\<open>max(voltages)\<close> of line 180 raises
  \<^verbatim>\<open>ValueError\<close> when no point was kept.
\<close>

definition plot_energy_efficiency ::
  "result list \<Rightarrow> error + (rat list \<times> rat list \<times> rat list \<times> nat)" where
  "plot_energy_efficiency results =
     (case epi_loop results (dvfs_points_of results) ([], [], []) of
        (frequencies, voltages, avg_epi) \<Rightarrow>
          if voltages = [] then Inl ValueError
          else (case np_argmin avg_epi of
                  Inl e \<Rightarrow> Inl e
                | Inr optimal_idx \<Rightarrow> Inr (frequencies, voltages, avg_epi, optimal_idx)))"

text \<open>
  For stating what the loop computes: the entries it averages at an operating point, those
  of that point whose workload is not the idle one.
\<close>

definition active_results_at :: "result list \<Rightarrow> rat \<times> rat \<Rightarrow> result list" where
  "active_results_at results p =
     filter (\<lambda>r. r_workload r \<noteq> ''idle_scenario'')
       (filter (\<lambda>r. r_voltage r = fst p \<and> r_frequency r = snd p) results)"

subsection \<open>Efficiency across the operating points\<close>

text \<open>
  \<^verbatim>\<open>plot_dvfs_efficiency_curve\<close>, lines 371--423, without the drawing. For every
  operating point the first entry of the baseline workload is taken
  (\<^verbatim>\<open>next((r for r in results if ...), None)\<close>), and
  \<^verbatim>\<open>efficiency = (ipc / power) * 1000\<close> divides by its average power.
\<close>

fun efficiency_loop ::
  "result list \<Rightarrow> (rat \<times> rat) list \<Rightarrow> rat list \<times> rat list \<times> rat list
     \<Rightarrow> error + (rat list \<times> rat list \<times> rat list)" where
  "efficiency_loop results [] acc = Inr acc"
| "efficiency_loop results ((voltage, frequency) # rest) (frequencies, efficiencies, voltages) =
     (case find (\<lambda>r. r_voltage r = voltage \<and> r_frequency r = frequency
                     \<and> r_workload r = ''healthcare_monitor_test'') results of
        None \<Rightarrow> efficiency_loop results rest (frequencies, efficiencies, voltages)
      | Some point_result \<Rightarrow>
          (let ipc = m_ipc (r_metrics point_result);
               power = m_avg_power (r_metrics point_result)
           in if power = 0 then Inl ZeroDivisionError
              else efficiency_loop results rest
                     (frequencies @ [frequency], efficiencies @ [(ipc / power) * 1000],
                      voltages @ [voltage])))"

text \<open>
  For stating what the loop computes: the entry it reads at an operating point, the first
  one of that point with the baseline workload.
\<close>

definition baseline_result_at :: "result list \<Rightarrow> rat \<times> rat \<Rightarrow> result option" where
  "baseline_result_at results p =
     find (\<lambda>r. r_voltage r = fst p \<and> r_frequency r = snd p
                 \<and> r_workload r = ''healthcare_monitor_test'') results"

text \<open>
  The whole function: the three lists and \<^verbatim>\<open>optimal_idx = np.argmax(efficiencies)\<close>
  (line 410), the point it marks with a star.
\<close>

definition plot_dvfs_efficiency_curve ::
  "result list \<Rightarrow> error + (rat list \<times> rat list \<times> rat list \<times> nat)" where
  "plot_dvfs_efficiency_curve results =
     (case efficiency_loop results (dvfs_points_of results) ([], [], []) of
        Inl e \<Rightarrow> Inl e
      | Inr (frequencies, efficiencies, voltages) \<Rightarrow>
          (case np_argmax efficiencies of
             Inl e \<Rightarrow> Inl e
           | Inr optimal_idx \<Rightarrow> Inr (frequencies, efficiencies, voltages, optimal_idx)))"

text \<open>
  Three entries as the generator writes them (its first, its fifth and its seventh, with
  every random draw in the middle of its range), used as concrete input below: the
  baseline and the idle workload at 0.6 V / 50 MHz and the baseline workload at
  0.7 V / 100 MHz.
\<close>

definition first_entry :: result where
  "first_entry =
     \<lparr> r_voltage = 0.6, r_frequency = 50, r_workload = ''healthcare_monitor_test'',
       r_metrics = \<lparr> m_ipc = 0.662, m_cpi = 1.509, m_avg_power = 14.9, m_peak_power = 19.4,
                     m_total_energy = 90.11, m_energy_per_inst = 0.0005, m_sim_insts = 200000,
                     m_sim_seconds = 0.006038, m_icache_hit_rate = 0.945,
                     m_dcache_hit_rate = 0.955 \<rparr> \<rparr>"

definition idle_entry :: result where
  "idle_entry =
     \<lparr> r_voltage = 0.6, r_frequency = 50, r_workload = ''idle_scenario'',
       r_metrics = \<lparr> m_ipc = 0.199, m_cpi = 5.031, m_avg_power = 6.6, m_peak_power = 8.6,
                     m_total_energy = 33.09, m_energy_per_inst = 0.0007, m_sim_insts = 50000,
                     m_sim_seconds = 0.005031, m_icache_hit_rate = 0.945,
                     m_dcache_hit_rate = 0.955 \<rparr> \<rparr>"

definition baseline_entry :: result where
  "baseline_entry =
     \<lparr> r_voltage = 0.7, r_frequency = 100, r_workload = ''healthcare_monitor_test'',
       r_metrics = \<lparr> m_ipc = 0.675, m_cpi = 1.481, m_avg_power = 36.6, m_peak_power = 47.5,
                     m_total_energy = 108.37, m_energy_per_inst = 0.0005, m_sim_insts = 200000,
                     m_sim_seconds = 0.002963, m_icache_hit_rate = 0.945,
                     m_dcache_hit_rate = 0.955 \<rparr> \<rparr>"

subsection \<open>The other tables of operating points\<close>

text \<open>
  \<^verbatim>\<open>selected_points\<close> of \<^verbatim>\<open>generate_results_table\<close> (line 432), and
  \<^verbatim>\<open>self.dvfs_points\<close> of \<^verbatim>\<open>configure_power_management\<close> in the system
  configuration (lines 189--196), which writes every quantity as a string with its unit.
\<close>

definition selected_points :: "(rat \<times> rat) list" where
  "selected_points = [(0.6, 50), (0.8, 200), (1.0, 600), (1.2, 800)]"

definition self_dvfs_points :: "(string \<times> string) list" where
  "self_dvfs_points =
     [(''0.6V'', ''50MHz''),
      (''0.7V'', ''100MHz''),
      (''0.8V'', ''200MHz''),
      (''0.9V'', ''400MHz''),
      (''1.0V'', ''600MHz''),
      (''1.2V'', ''800MHz'')]"

text \<open>
  Reading such a string: a decimal numeral (digits, then optionally a point and digits)
  followed by exactly the unit. The configuration itself never converts its table; this
  reader gives the strings the value they denote, volts for \<^verbatim>\<open>V\<close> and megahertz for
  \<^verbatim>\<open>MHz\<close>.
\<close>

definition digit_of :: "char \<Rightarrow> nat option" where
  "digit_of c =
     (let n = (of_char c :: nat) in if 48 \<le> n \<and> n \<le> 57 then Some (n - 48) else None)"

fun read_digits :: "string \<Rightarrow> nat \<Rightarrow> nat \<Rightarrow> nat \<times> nat \<times> string" where
  "read_digits [] acc n = (acc, n, [])"
| "read_digits (c # cs) acc n =
     (case digit_of c of
        Some d \<Rightarrow> read_digits cs (10 * acc + d) (Suc n)
      | None \<Rightarrow> (acc, n, c # cs))"

definition read_decimal :: "string \<Rightarrow> (rat \<times> string) option" where
  "read_decimal s =
     (case read_digits s 0 0 of
        (whole, n, rest) \<Rightarrow>
          if n = 0 then None
          else (case rest of
                  [] \<Rightarrow> Some (of_nat whole, rest)
                | c # rest' \<Rightarrow>
                    if c = CHR ''.''
                    then (case read_digits rest' 0 0 of
                            (decimals, m, rest'') \<Rightarrow>
                              if m = 0 then None
                              else Some (of_nat whole + of_nat decimals / 10 ^ m, rest''))
                    else Some (of_nat whole, rest)))"

definition quantity :: "string \<Rightarrow> string \<Rightarrow> rat option" where
  "quantity unit s =
     (case read_decimal s of
        None \<Rightarrow> None
      | Some (x, rest) \<Rightarrow> if rest = unit then Some x else None)"

definition read_point :: "string \<times> string \<Rightarrow> (rat \<times> rat) option" where
  "read_point p =
     (case (quantity ''V'' (fst p), quantity ''MHz'' (snd p)) of
        (Some voltage, Some frequency) \<Rightarrow> Some (voltage, frequency)
      | _ \<Rightarrow> None)"

text \<open>
  A table of operating points is co-monotonic when both the voltage and the frequency
  grow strictly from every point to every later one.
\<close>

definition co_monotonic :: "(rat \<times> rat) list \<Rightarrow> bool" where
  "co_monotonic points = sorted_wrt (\<lambda>p q. fst p < fst q \<and> snd p < snd q) points"

subsection \<open>The wiring of the system\<close>

text \<open>
  \<^verbatim>\<open>HealthcareIoTSystem.__init__\<close>, lines 29--52. The objects it creates, and the
  port attributes it assigns. The caches are stored as the attributes
  \<^verbatim>\<open>cpu.icache\<close> and \<^verbatim>\<open>cpu.dcache\<close> of the processor; \<^verbatim>\<open>system_port\<close> is the
  port of the system object itself.
\<close>

datatype component = Cpu | ICache | DCache | L2Cache | MemBus | MemCtrl | SystemObject

datatype port_name =
  mem_side | cpu_side | cpu_side_ports | mem_side_ports | port | system_port

text \<open>
  The side of a port: \<^verbatim>\<open>mem_side\<close>, a crossbar's \<^verbatim>\<open>mem_side_ports\<close> and the
  \<^verbatim>\<open>system_port\<close> send requests towards memory; \<^verbatim>\<open>cpu_side\<close>, a crossbar's
  \<^verbatim>\<open>cpu_side_ports\<close> and the memory controller's \<^verbatim>\<open>port\<close> receive them.
\<close>

datatype side = MemSide | CpuSide

fun role :: "port_name \<Rightarrow> side" where
  "role mem_side = MemSide"
| "role mem_side_ports = MemSide"
| "role system_port = MemSide"
| "role cpu_side = CpuSide"
| "role cpu_side_ports = CpuSide"
| "role port = CpuSide"

text \<open>
  Every port assignment \<^verbatim>\<open>a.p = b.q\<close> of the constructor, in its order:
  \<^verbatim>\<open>
    self.cpu.icache.mem_side = self.l2cache.cpu_side
    self.cpu.dcache.mem_side = self.l2cache.cpu_side
    self.l2cache.mem_side = self.membus.cpu_side_ports
    self.mem_ctrl.port = self.membus.mem_side_ports
    self.system_port = self.membus.cpu_side_ports
  \<close>
  No statement of the constructor assigns a port of \<^verbatim>\<open>self.cpu\<close>.
\<close>

definition connections :: "((component \<times> port_name) \<times> (component \<times> port_name)) list" where
  "connections =
     [((ICache, mem_side), (L2Cache, cpu_side)),
      ((DCache, mem_side), (L2Cache, cpu_side)),
      ((L2Cache, mem_side), (MemBus, cpu_side_ports)),
      ((MemCtrl, port), (MemBus, mem_side_ports)),
      ((SystemObject, system_port), (MemBus, cpu_side_ports))]"

text \<open>
  The edge of a connection runs from the component with the memory-side port to the
  component with the processor-side port; two ports of the same side give no edge.
\<close>

definition edge_of ::
  "(component \<times> port_name) \<times> (component \<times> port_name) \<Rightarrow> (component \<times> component) option" where
  "edge_of c =
     (case c of
        ((a, p), (b, q)) \<Rightarrow>
          if role p = MemSide \<and> role q = CpuSide then Some (a, b)
          else if role p = CpuSide \<and> role q = MemSide then Some (b, a)
          else None)"

definition edges :: "(component \<times> component) list" where
  "edges = List.map_filter edge_of connections"

definition reaches :: "component \<Rightarrow> component \<Rightarrow> bool" where
  "reaches a b = ((a, b) \<in> (set edges)\<^sup>*)"

section \<open>Properties\<close>

subsection \<open>Power model\<close>

text \<open>
  C1 (as amended). For every operating point and every \<open>ipc\<close> the power computation
  yields \<open>dynamic = voltage\<^sup>2 \<sqdot> frequency \<sqdot> ipc\<close>, \<open>static = 5 \<sqdot> voltage\<close> and
  \<open>total = dynamic + static\<close>: the specification's formula with the constants fixed in
  the code, \<open>C = 1\<close> and \<open>k = 5\<close>. They are not parameters of the computation.
\<close>

theorem power_model_fixed_constants:
  "(dynamic_power_of voltage frequency ipc, static_power_of voltage,
    avg_power_of voltage frequency ipc) = spec_power 1 5 voltage frequency ipc"
  by (simp add: spec_power_def avg_power_of_def dynamic_power_of_def static_power_of_def)

text \<open>
  The claim as stated fails: with a capacitance constant of 2 and a leakage coefficient of
  3 supplied as configuration, the computation still answers with its own constants.
\<close>

theorem power_model_ignores_configuration:
  "(dynamic_power_of 1 1 1, static_power_of 1, avg_power_of 1 1 1) \<noteq> spec_power 2 3 1 1 1"
  by (simp add: spec_power_def avg_power_of_def dynamic_power_of_def static_power_of_def)




lemma float_of_in_range:
  "\<bar>x\<bar> < overflow_bound \<Longrightarrow> float_of x = Finite x"
  by (auto simp: float_of_def)

lemma power_model_in_range:
  assumes "voltage ^ 2 < overflow_bound"
    and "\<bar>voltage ^ 2 * frequency\<bar> < overflow_bound"
    and "\<bar>dynamic_power_of voltage frequency ipc\<bar> < overflow_bound"
    and "\<bar>static_power_of voltage\<bar> < overflow_bound"
    and "\<bar>avg_power_of voltage frequency ipc\<bar> < overflow_bound"
  shows "power_model (Finite voltage) (Finite frequency) (Finite ipc)
         = Inr (Finite (dynamic_power_of voltage frequency ipc),
                Finite (static_power_of voltage),
                Finite (avg_power_of voltage frequency ipc))"
  using assms
  by (simp add: power_model_def float_of_in_range dynamic_power_of_def static_power_of_def
      avg_power_of_def)

lemma power_model_overflow:
  "overflow_bound \<le> voltage ^ 2
   \<Longrightarrow> power_model (Finite voltage) frequency ipc = Inl OverflowError"
  by (simp add: power_model_def)

lemma power_model_overflow_example:
  "power_model (Finite (10 ^ 200)) (Finite 800) (Finite 0) = Inl OverflowError"
  by (simp add: power_model_def overflow_bound_def)




subsection \<open>Energy of a run\<close>

text \<open>
  C5 (as amended). Whenever the energy of a run is derived, the total energy is the
  total power times the elapsed seconds times 1000 (the result is in microjoules), the
  energy per instruction is the total energy divided by the instruction count, and the
  instruction count is not zero; with an instruction count of zero the derivation fails
  with a division by zero, whatever the workload.
\<close>

theorem derive_energy_scaled:
  "(derive_energy avg_power sim_insts frequency base_ipc
      = Inr (sim_seconds, total_energy, energy_per_inst)
      \<longrightarrow> sim_insts \<noteq> 0
        \<and> sim_seconds = of_int sim_insts / (frequency * 1000000 * base_ipc)
        \<and> total_energy = avg_power * sim_seconds * 1000
        \<and> energy_per_inst = total_energy / of_int sim_insts)
   \<and> derive_energy avg_power 0 frequency base_ipc = Inl ZeroDivisionError"
  by (auto simp: derive_energy_def sim_seconds_of_def total_energy_of_def energy_per_inst_of_def
      Let_def split: if_splits)

theorem derive_energy_scaled_witness:
  "derive_energy (597 / 40) 200000 50 (53 / 80) = Inr (8 / 1325, 4776 / 53, 597 / 1325000)
   \<and> (200000 :: int) \<noteq> 0
   \<and> (8 / 1325 :: rat) = of_int 200000 / (50 * 1000000 * (53 / 80))
   \<and> (4776 / 53 :: rat) = (597 / 40) * (8 / 1325) * 1000
   \<and> (597 / 1325000 :: rat) = (4776 / 53) / of_int 200000
   \<and> derive_energy (597 / 40) 0 50 (53 / 80) = Inl ZeroDivisionError"
proof -
  have run: "derive_energy (597 / 40) 200000 50 (53 / 80)
             = Inr (8 / 1325, 4776 / 53, 597 / 1325000)"
    by (simp add: derive_energy_def sim_seconds_of_def total_energy_of_def
        energy_per_inst_of_def)
  show ?thesis
    using run
      derive_energy_scaled [of "597 / 40" 200000 50 "53 / 80" "8 / 1325" "4776 / 53"
        "597 / 1325000"]
    by simp
qed

text \<open>
  The claim as stated fails at the first row of the sample data (0.6 V, 50 MHz, the
  baseline workload: 14.925 mW, 200000 instructions, an \<open>ipc\<close> of 0.6625): the total energy
  is not the power times the elapsed seconds.
\<close>

theorem total_energy_has_scale_factor:
  "derive_energy (597 / 40) 200000 50 (53 / 80) = Inr (8 / 1325, 4776 / 53, 597 / 1325000)
   \<and> (4776 / 53 :: rat) \<noteq> (597 / 40) * (8 / 1325)"
  by (simp add: derive_energy_def sim_seconds_of_def total_energy_of_def energy_per_inst_of_def)

subsection \<open>Tables of operating points\<close>

text \<open>
  C6. Every table of operating points in the program is strictly increasing in both
  voltage and frequency from each point to every later one and holds no point twice: the
  table of the sample generator, the selection of the results table, and the table of the
  system configuration, whose strings denote exactly the points of the generator's table.
\<close>

theorem dvfs_tables_co_monotonic:
  "co_monotonic dvfs_points \<and> distinct dvfs_points
   \<and> co_monotonic selected_points \<and> distinct selected_points
   \<and> map read_point self_dvfs_points = map Some dvfs_points
   \<and> distinct self_dvfs_points"
  by (simp add: co_monotonic_def dvfs_points_def selected_points_def self_dvfs_points_def
      read_point_def quantity_def read_decimal_def digit_of_def)

subsection \<open>The sample data generator\<close>

lemma round_half_even_ge_floor: "\<lfloor>y\<rfloor> \<le> round_half_even y"
  by (simp add: round_half_even_def Let_def)

lemma py_round_pos:
  assumes "1 \<le> x * 10 ^ n"
  shows "0 < py_round x n"
proof -
  have "1 \<le> \<lfloor>x * 10 ^ n\<rfloor>"
    using assms by (simp add: le_floor_iff)
  then have "1 \<le> round_half_even (x * 10 ^ n)"
    using round_half_even_ge_floor [of "x * 10 ^ n"] by linarith
  then have "(0::rat) < of_int (round_half_even (x * 10 ^ n))"
    by simp
  then show ?thesis
    by (simp add: py_round_def)
qed

lemma base_ipc_bounds:
  assumes "0 < frequency" and "frequency \<le> 800"
  shows "0 < base_ipc_of frequency workload \<and> base_ipc_of frequency workload \<le> 1"
  using assms by (simp add: base_ipc_of_def Let_def)

lemma sim_insts_bounds: "50000 \<le> sim_insts_of workload"
  by (simp add: sim_insts_of_def)

lemma sim_seconds_rounds_pos:
  assumes "0 < frequency" and "frequency \<le> 800"
  shows "0 < py_round (of_int (sim_insts_of workload)
                        / (frequency * 1000000 * base_ipc_of frequency workload)) 6"
proof (rule py_round_pos)
  let ?b = "base_ipc_of frequency workload"
  have b: "0 < ?b" "?b \<le> 1"
    using base_ipc_bounds [OF assms] by simp_all
  have "frequency * ?b \<le> 800 * 1"
    using assms b by (intro mult_mono) simp_all
  moreover have "(50000::rat) \<le> of_int (sim_insts_of workload)"
    using sim_insts_bounds [of workload] by (simp add: sim_insts_of_def)
  ultimately have le: "frequency * ?b \<le> of_int (sim_insts_of workload)"
    by linarith
  have pos: "0 < frequency * ?b"
    using assms(1) b(1) by simp
  have "of_int (sim_insts_of workload) / (frequency * 1000000 * ?b) * 10 ^ 6
        = of_int (sim_insts_of workload) / (frequency * ?b)"
    by simp
  moreover have "1 \<le> of_int (sim_insts_of workload) / (frequency * ?b)"
    using le pos by (simp add: le_divide_eq)
  ultimately show "1 \<le> of_int (sim_insts_of workload) / (frequency * 1000000 * ?b) * 10 ^ 6"
    by simp
qed

lemma sample_result_runs:
  assumes "0 < frequency" and "frequency \<le> 800"
  shows "\<exists>r. sample_result voltage frequency workload g = Inr (r, \<lambda>n. g (Suc (Suc n)))
            \<and> record_key r = (voltage, frequency, workload)
            \<and> 0 < m_sim_insts (r_metrics r) \<and> 0 < m_sim_seconds (r_metrics r)"
proof -
  have b: "0 < base_ipc_of frequency workload"
    using base_ipc_bounds [OF assms] by simp
  have i: "0 < sim_insts_of workload"
    using sim_insts_bounds [of workload] by linarith
  show ?thesis
    using b i assms(1) sim_seconds_rounds_pos [OF assms, of workload]
    by (simp add: sample_result_def derive_energy_def sim_seconds_of_def energy_per_inst_of_def
        np_random_uniform_def record_key_def Let_def)
qed

lemma sample_result_rng:
  "(\<exists>e. sample_result voltage frequency workload g = Inl e
        \<and> sample_result voltage frequency workload g' = Inl e)
   \<or> (\<exists>r r'. sample_result voltage frequency workload g = Inr (r, \<lambda>n. g (Suc (Suc n)))
        \<and> sample_result voltage frequency workload g' = Inr (r', \<lambda>n. g' (Suc (Suc n)))
        \<and> without_hit_rates r = without_hit_rates r')"
  by (simp add: sample_result_def np_random_uniform_def without_hit_rates_def Let_def
      split: sum.splits prod.splits)


text \<open>The three example entries are entries of the generator.\<close>

lemma entries_from_generator:
  "map_sum id fst (sample_result 0.6 50 ''healthcare_monitor_test'' (\<lambda>n. 1 / 2))
     = Inr first_entry"
  "map_sum id fst (sample_result 0.6 50 ''idle_scenario'' (\<lambda>n. 1 / 2)) = Inr idle_entry"
  "map_sum id fst (sample_result 0.7 100 ''healthcare_monitor_test'' (\<lambda>n. 1 / 2))
     = Inr baseline_entry"
  by code_simp+

lemma workload_loop_runs:
  assumes "0 < frequency" and "frequency \<le> 800"
  shows "\<exists>out h. workload_loop voltage frequency ws (rs, g) = Inr (rs @ out, h)
            \<and> map record_key out = map (\<lambda>w. (voltage, frequency, w)) ws
            \<and> (\<forall>r\<in>set out. 0 < m_sim_insts (r_metrics r) \<and> 0 < m_sim_seconds (r_metrics r))"
proof (induction ws arbitrary: rs g)
  case Nil
  then show ?case by simp
next
  case (Cons w ws)
  obtain r where r: "sample_result voltage frequency w g = Inr (r, \<lambda>n. g (Suc (Suc n)))"
      "record_key r = (voltage, frequency, w)"
      "0 < m_sim_insts (r_metrics r)" "0 < m_sim_seconds (r_metrics r)"
    using sample_result_runs [OF assms] by blast
  obtain out h where out:
      "workload_loop voltage frequency ws (rs @ [r], \<lambda>n. g (Suc (Suc n))) = Inr ((rs @ [r]) @ out, h)"
      "map record_key out = map (\<lambda>w. (voltage, frequency, w)) ws"
      "\<forall>r\<in>set out. 0 < m_sim_insts (r_metrics r) \<and> 0 < m_sim_seconds (r_metrics r)"
    using Cons.IH by blast
  have "workload_loop voltage frequency (w # ws) (rs, g) = Inr (rs @ (r # out), h)"
    using r(1) out(1) by simp
  moreover have "map record_key (r # out) = map (\<lambda>w. (voltage, frequency, w)) (w # ws)"
    using r(2) out(2) by simp
  moreover have "\<forall>x\<in>set (r # out). 0 < m_sim_insts (r_metrics x) \<and> 0 < m_sim_seconds (r_metrics x)"
    using r(3,4) out(3) by simp
  ultimately show ?case by blast
qed

lemma point_loop_runs:
  assumes "\<forall>p\<in>set ps. 0 < snd p \<and> snd p \<le> 800"
  shows "\<exists>out h. point_loop ps (rs, g) = Inr (rs @ out, h)
            \<and> map record_key out
                = concat (map (\<lambda>p. map (\<lambda>w. (fst p, snd p, w)) workloads) ps)
            \<and> (\<forall>r\<in>set out. 0 < m_sim_insts (r_metrics r) \<and> 0 < m_sim_seconds (r_metrics r))"
  using assms
proof (induction ps arbitrary: rs g)
  case Nil
  then show ?case by simp
next
  case (Cons p ps)
  obtain voltage frequency where p: "p = (voltage, frequency)"
    by (cases p)
  have f: "0 < frequency" "frequency \<le> 800"
    using Cons.prems p by simp_all
  obtain out1 h1 where out1:
      "workload_loop voltage frequency workloads (rs, g) = Inr (rs @ out1, h1)"
      "map record_key out1 = map (\<lambda>w. (voltage, frequency, w)) workloads"
      "\<forall>r\<in>set out1. 0 < m_sim_insts (r_metrics r) \<and> 0 < m_sim_seconds (r_metrics r)"
    using workload_loop_runs [OF f] by blast
  have rest: "\<forall>p\<in>set ps. 0 < snd p \<and> snd p \<le> 800"
    using Cons.prems by simp
  obtain out2 h2 where out2:
      "point_loop ps (rs @ out1, h1) = Inr ((rs @ out1) @ out2, h2)"
      "map record_key out2 = concat (map (\<lambda>p. map (\<lambda>w. (fst p, snd p, w)) workloads) ps)"
      "\<forall>r\<in>set out2. 0 < m_sim_insts (r_metrics r) \<and> 0 < m_sim_seconds (r_metrics r)"
    using Cons.IH [OF rest] by blast
  have "point_loop (p # ps) (rs, g) = Inr (rs @ (out1 @ out2), h2)"
    using p out1(1) out2(1) by simp
  moreover have "map record_key (out1 @ out2)
      = concat (map (\<lambda>p. map (\<lambda>w. (fst p, snd p, w)) workloads) (p # ps))"
    using p out1(2) out2(2) by simp
  moreover have "\<forall>r\<in>set (out1 @ out2). 0 < m_sim_insts (r_metrics r) \<and> 0 < m_sim_seconds (r_metrics r)"
    using out1(3) out2(3) by auto
  ultimately show ?case by blast
qed

lemma dvfs_points_in_range: "\<forall>p\<in>set dvfs_points. 0 < snd p \<and> snd p \<le> 800"
  by (simp add: dvfs_points_def)

lemma generate_sample_runs:
  "\<exists>rs h. generate_sample_dvfs_data g = Inr (rs, h)
      \<and> map record_key rs = concat (map (\<lambda>p. map (\<lambda>w. (fst p, snd p, w)) workloads) dvfs_points)
      \<and> length rs = 36
      \<and> distinct (map record_key rs)
      \<and> (\<forall>r\<in>set rs. 0 < m_sim_insts (r_metrics r) \<and> 0 < m_sim_seconds (r_metrics r))"
proof -
  obtain rs h where rs: "point_loop dvfs_points ([], g) = Inr ([] @ rs, h)"
      "map record_key rs = concat (map (\<lambda>p. map (\<lambda>w. (fst p, snd p, w)) workloads) dvfs_points)"
      "\<forall>r\<in>set rs. 0 < m_sim_insts (r_metrics r) \<and> 0 < m_sim_seconds (r_metrics r)"
    using point_loop_runs [OF dvfs_points_in_range] by blast
  have "length (map record_key rs) = 36"
    unfolding rs(2) by (simp add: dvfs_points_def workloads_def)
  then have len: "length rs = 36" by simp
  have dist: "distinct (map record_key rs)"
    unfolding rs(2) by (simp add: dvfs_points_def workloads_def)
  show ?thesis
    using rs len dist by (simp add: generate_sample_dvfs_data_def)
qed


text \<open>
  C10. Whatever the state of the random generator, the sample generator returns one entry
  per operating point and workload, the points in table order and the workloads in list
  order within each point: 6 \<open>\<times>\<close> 6 = 36 entries, no two with the same
  (voltage, frequency, workload) key, and every entry has an instruction count above zero
  and (after rounding to six decimals) an elapsed time above zero.
\<close>

theorem sample_data_one_record_per_key:
  "\<exists>rs h. generate_sample_dvfs_data g = Inr (rs, h)
      \<and> map record_key rs = concat (map (\<lambda>p. map (\<lambda>w. (fst p, snd p, w)) workloads) dvfs_points)
      \<and> length rs = 36
      \<and> distinct (map record_key rs)
      \<and> (\<forall>r\<in>set rs. 0 < m_sim_insts (r_metrics r) \<and> 0 < m_sim_seconds (r_metrics r))"
  by (rule generate_sample_runs)

theorem sample_data_one_record_per_key_witness:
  "\<exists>rs h r. generate_sample_dvfs_data (\<lambda>n. 0) = Inr (rs, h)
      \<and> r \<in> set rs \<and> record_key r = (0.6, 50, ''healthcare_monitor_test'')
      \<and> 0 < m_sim_insts (r_metrics r) \<and> 0 < m_sim_seconds (r_metrics r)"
proof -
  obtain rs h where rs: "generate_sample_dvfs_data (\<lambda>n. 0) = Inr (rs, h)"
      "map record_key rs = concat (map (\<lambda>p. map (\<lambda>w. (fst p, snd p, w)) workloads) dvfs_points)"
      "\<forall>r\<in>set rs. 0 < m_sim_insts (r_metrics r) \<and> 0 < m_sim_seconds (r_metrics r)"
    using sample_data_one_record_per_key [of "\<lambda>n. 0"] by blast
  have "(0.6, 50, ''healthcare_monitor_test'') \<in> set (map record_key rs)"
    unfolding rs(2) by (simp add: dvfs_points_def workloads_def)
  then obtain r where "r \<in> set rs" "record_key r = (0.6, 50, ''healthcare_monitor_test'')"
    by auto
  then show ?thesis
    using rs(1,3) by blast
qed

lemma workload_loop_rng:
  assumes "map without_hit_rates rs = map without_hit_rates rs'"
  shows "rel_sum (=) (\<lambda>s s'. map without_hit_rates (fst s) = map without_hit_rates (fst s'))
           (workload_loop voltage frequency ws (rs, g))
           (workload_loop voltage frequency ws (rs', g'))"
  using assms
proof (induction ws arbitrary: rs rs' g g')
  case Nil
  then show ?case by simp
next
  case (Cons w ws)
  from sample_result_rng [of voltage frequency w g g'] show ?case
  proof (elim disjE exE conjE)
    fix e
    assume "sample_result voltage frequency w g = Inl e"
      and "sample_result voltage frequency w g' = Inl e"
    then show ?thesis by simp
  next
    fix r r'
    assume r: "sample_result voltage frequency w g = Inr (r, \<lambda>n. g (Suc (Suc n)))"
      and r': "sample_result voltage frequency w g' = Inr (r', \<lambda>n. g' (Suc (Suc n)))"
      and eq: "without_hit_rates r = without_hit_rates r'"
    have "map without_hit_rates (rs @ [r]) = map without_hit_rates (rs' @ [r'])"
      using Cons.prems eq by simp
    from Cons.IH [OF this] show ?thesis
      using r r' by simp
  qed
qed

lemma point_loop_rng:
  assumes "map without_hit_rates (fst s) = map without_hit_rates (fst s')"
  shows "rel_sum (=) (\<lambda>s s'. map without_hit_rates (fst s) = map without_hit_rates (fst s'))
           (point_loop ps s) (point_loop ps s')"
  using assms
proof (induction ps arbitrary: s s')
  case Nil
  then show ?case by simp
next
  case (Cons p ps)
  obtain voltage frequency where p: "p = (voltage, frequency)"
    by (cases p)
  obtain rs g rs' g' where s: "s = (rs, g)" "s' = (rs', g')"
    by (cases s, cases s')
  let ?a = "workload_loop voltage frequency workloads (rs, g)"
  let ?b = "workload_loop voltage frequency workloads (rs', g')"
  have rel: "rel_sum (=) (\<lambda>s s'. map without_hit_rates (fst s) = map without_hit_rates (fst s'))
               ?a ?b"
    using Cons.prems s by (intro workload_loop_rng) simp
  show ?case
  proof (cases ?a)
    case (Inl e)
    then have "?b = Inl e"
      using rel by (cases ?b) simp_all
    then show ?thesis
      using p s Inl by simp
  next
    case (Inr t)
    then obtain t' where t': "?b = Inr t'"
        "map without_hit_rates (fst t) = map without_hit_rates (fst t')"
      using rel by (cases ?b) simp_all
    from Cons.IH [OF t'(2)] show ?thesis
      using p s Inr t'(1) by simp
  qed
qed

lemma sample_result_icache:
  assumes "sample_result voltage frequency workload g = Inr (r, h)"
  shows "m_icache_hit_rate (r_metrics r) = py_round (0.945 + (- 0.01 + 0.02 * g 0)) 4"
  using assms
  by (auto simp: sample_result_def np_random_uniform_def Let_def
      split: sum.splits prod.splits if_splits)

lemma first_entry_icache:
  "\<exists>rs h. generate_sample_dvfs_data g = Inr (rs, h) \<and> rs \<noteq> []
      \<and> m_icache_hit_rate (r_metrics (hd rs)) = py_round (0.945 + (- 0.01 + 0.02 * g 0)) 4"
proof -
  let ?w = "''healthcare_monitor_test''"
  let ?ws = "[''intensive_ecg_processing'', ''burst_transmission'', ''mixed_workload'',
              ''idle_scenario'', ''stress_test'']"
  let ?ps = "[(0.7, 100), (0.8, 200), (0.9, 400), (1.0, 600), (1.2, 800 :: rat)] :: (rat \<times> rat) list"
  have f: "(0::rat) < 50" "(50::rat) \<le> 800" by simp_all
  obtain r where r: "sample_result 0.6 50 ?w g = Inr (r, \<lambda>n. g (Suc (Suc n)))"
    using sample_result_runs [OF f] by blast
  obtain out1 h1 where out1:
      "workload_loop 0.6 50 ?ws ([r], \<lambda>n. g (Suc (Suc n))) = Inr ([r] @ out1, h1)"
    using workload_loop_runs [OF f] by blast
  have "\<forall>p\<in>set ?ps. 0 < snd p \<and> snd p \<le> 800" by simp
  from point_loop_runs [OF this] obtain out2 h2 where out2:
      "point_loop ?ps ([r] @ out1, h1) = Inr (([r] @ out1) @ out2, h2)"
    by blast
  have "generate_sample_dvfs_data g = Inr (r # out1 @ out2, h2)"
    using r out1 out2 by (simp add: generate_sample_dvfs_data_def dvfs_points_def workloads_def)
  then show ?thesis
    using sample_result_icache [OF r] by simp
qed

subsection \<open>The wiring of the system\<close>

lemma edges_eq:
  "edges = [(ICache, L2Cache), (DCache, L2Cache), (L2Cache, MemBus), (MemBus, MemCtrl),
            (SystemObject, MemBus)]"
  by (simp add: edges_def connections_def edge_of_def List.map_filter_def)

lemma edges_acyclic: "acyclic (set edges)"
  by (rule acyclicI_order
        [where f = "\<lambda>c. case c of MemCtrl \<Rightarrow> 0 :: nat | MemBus \<Rightarrow> 1 | L2Cache \<Rightarrow> 2 | _ \<Rightarrow> 3"])
     (auto simp: edges_eq)

lemma bus_reaches: "reaches MemBus MemCtrl"
  unfolding reaches_def by (rule r_into_rtrancl) (simp add: edges_eq)

lemma l2_reaches: "reaches L2Cache MemCtrl"
  using bus_reaches unfolding reaches_def
  by (rule converse_rtrancl_into_rtrancl [rotated]) (simp add: edges_eq)

lemma icache_reaches: "reaches ICache MemCtrl"
  using l2_reaches unfolding reaches_def
  by (rule converse_rtrancl_into_rtrancl [rotated]) (simp add: edges_eq)

lemma dcache_reaches: "reaches DCache MemCtrl"
  using l2_reaches unfolding reaches_def
  by (rule converse_rtrancl_into_rtrancl [rotated]) (simp add: edges_eq)

lemma cpu_isolated: "reaches Cpu b \<Longrightarrow> b = Cpu"
  unfolding reaches_def
  by (erule converse_rtranclE) (auto simp: edges_eq)

text \<open>
  C8. What the constructor wires: each of its five port assignments joins a memory-side
  port to a processor-side port, the graph of these edges has no cycle, and the two L1
  caches, the L2 cache and the memory bus reach the memory controller. The processor does
  not: no port of it is ever assigned, so no edge leaves it.
\<close>

theorem cpu_not_wired:
  "map edge_of connections =
     [Some (ICache, L2Cache), Some (DCache, L2Cache), Some (L2Cache, MemBus),
      Some (MemBus, MemCtrl), Some (SystemObject, MemBus)]
   \<and> acyclic (set edges)
   \<and> reaches ICache MemCtrl \<and> reaches DCache MemCtrl
   \<and> reaches L2Cache MemCtrl \<and> reaches MemBus MemCtrl
   \<and> \<not> reaches Cpu MemCtrl"
proof -
  have "map edge_of connections =
     [Some (ICache, L2Cache), Some (DCache, L2Cache), Some (L2Cache, MemBus),
      Some (MemBus, MemCtrl), Some (SystemObject, MemBus)]"
    by (simp add: connections_def edge_of_def)
  moreover have "\<not> reaches Cpu MemCtrl"
    using cpu_isolated [of MemCtrl] by auto
  ultimately show ?thesis
    using edges_acyclic icache_reaches dcache_reaches l2_reaches bus_reaches by simp
qed

subsection \<open>Aggregation and optimum over the operating points\<close>

lemma epi_loop_acc:
  "epi_loop results ps (fs, vs, es) =
     (fs @ map snd (filter (\<lambda>p. active_results_at results p \<noteq> []) ps),
      vs @ map fst (filter (\<lambda>p. active_results_at results p \<noteq> []) ps),
      es @ map (\<lambda>p. np_mean (map (\<lambda>r. m_energy_per_inst (r_metrics r))
                                   (active_results_at results p)))
             (filter (\<lambda>p. active_results_at results p \<noteq> []) ps))"
proof (induction ps arbitrary: fs vs es)
  case Nil
  then show ?case by simp
next
  case (Cons p ps)
  obtain voltage frequency where p: "p = (voltage, frequency)"
    by (cases p)
  show ?case
    unfolding p by (simp add: Cons.IH active_results_at_def Let_def)
qed

text \<open>
  C4 (as amended). The aggregation keeps exactly the operating points that have at least
  one entry whose workload is not the idle one, in the order of the sorted points, and
  gives each of them the arithmetic mean of \<^verbatim>\<open>energy_per_inst\<close> over exactly the entries
  of that point that are not idle. A point with no such entry is left out of the table
  without an error.
\<close>

theorem energy_table_means:
  "(let kept = filter (\<lambda>p. active_results_at results p \<noteq> []) (dvfs_points_of results)
    in epi_loop results (dvfs_points_of results) ([], [], [])
       = (map snd kept, map fst kept,
          map (\<lambda>p. sum_list (map (\<lambda>r. m_energy_per_inst (r_metrics r))
                                  (active_results_at results p))
                    / of_nat (length (active_results_at results p))) kept))
   \<and> set (active_results_at results p)
       = {r \<in> set results. r_voltage r = fst p \<and> r_frequency r = snd p
                             \<and> r_workload r \<noteq> ''idle_scenario''}"
  by (auto simp: epi_loop_acc np_mean_def Let_def active_results_at_def)

text \<open>
  The claim as stated fails: with one idle entry at 0.6 V / 50 MHz and one baseline entry
  at 0.7 V / 100 MHz, the first point is among the points of the results and has no entry
  left after the idle exclusion, and the function returns a table without it.
\<close>

theorem idle_only_point_skipped:
  "dvfs_points_of [idle_entry, baseline_entry] = [(3 / 5, 50), (7 / 10, 100)]
   \<and> active_results_at [idle_entry, baseline_entry] (3 / 5, 50) = []
   \<and> plot_energy_efficiency [idle_entry, baseline_entry]
       = Inr ([100], [7 / 10], [1 / 2000], 0)"
  by (simp add: plot_energy_efficiency_def dvfs_points_of_def idle_entry_def baseline_entry_def
      np_argmin_def np_mean_def active_results_at_def)

lemma argmin_scan_first:
  assumes "pre \<noteq> []" and "i = length pre" and "best_idx < length pre"
    and "best = pre ! best_idx"
    and "\<forall>j < length pre. best \<le> pre ! j"
    and "\<forall>j < best_idx. best < pre ! j"
  shows "argmin_scan xs i best best_idx < length (pre @ xs)
       \<and> (\<forall>j < length (pre @ xs). (pre @ xs) ! argmin_scan xs i best best_idx \<le> (pre @ xs) ! j)
       \<and> (\<forall>j < argmin_scan xs i best best_idx.
             (pre @ xs) ! argmin_scan xs i best best_idx < (pre @ xs) ! j)"
  using assms
proof (induction xs arbitrary: pre i best best_idx)
  case Nil
  then show ?case by simp
next
  case (Cons x xs)
  let ?pre = "pre @ [x]"
  show ?case
  proof (cases "x < best")
    case True
    have "argmin_scan xs (Suc i) x i < length (?pre @ xs)
       \<and> (\<forall>j < length (?pre @ xs). (?pre @ xs) ! argmin_scan xs (Suc i) x i \<le> (?pre @ xs) ! j)
       \<and> (\<forall>j < argmin_scan xs (Suc i) x i.
             (?pre @ xs) ! argmin_scan xs (Suc i) x i < (?pre @ xs) ! j)"
    proof (rule Cons.IH)
      show "?pre \<noteq> []" by simp
      show "Suc i = length ?pre" using Cons.prems(2) by simp
      show "i < length ?pre" using Cons.prems(2) by simp
      show "x = ?pre ! i" using Cons.prems(2) by simp
      show "\<forall>j<length ?pre. x \<le> ?pre ! j"
        using Cons.prems(5) True by (auto simp: nth_append less_Suc_eq)
      show "\<forall>j<i. x < ?pre ! j"
        using Cons.prems(2,5) True by (auto simp: nth_append)
    qed
    then show ?thesis using True by simp
  next
    case False
    have "argmin_scan xs (Suc i) best best_idx < length (?pre @ xs)
       \<and> (\<forall>j < length (?pre @ xs). (?pre @ xs) ! argmin_scan xs (Suc i) best best_idx \<le> (?pre @ xs) ! j)
       \<and> (\<forall>j < argmin_scan xs (Suc i) best best_idx.
             (?pre @ xs) ! argmin_scan xs (Suc i) best best_idx < (?pre @ xs) ! j)"
    proof (rule Cons.IH)
      show "?pre \<noteq> []" by simp
      show "Suc i = length ?pre" using Cons.prems(2) by simp
      show "best_idx < length ?pre" using Cons.prems(3) by simp
      show "best = ?pre ! best_idx" using Cons.prems(3,4) by (simp add: nth_append)
      show "\<forall>j<length ?pre. best \<le> ?pre ! j"
        using Cons.prems(5) False by (auto simp: nth_append less_Suc_eq)
      show "\<forall>j<best_idx. best < ?pre ! j"
        using Cons.prems(3,6) by (auto simp: nth_append)
    qed
    then show ?thesis using False by simp
  qed
qed

lemma np_argmin_first:
  assumes "np_argmin xs = Inr k"
  shows "k < length xs \<and> (\<forall>j < length xs. xs ! k \<le> xs ! j) \<and> (\<forall>j < k. xs ! k < xs ! j)"
proof (cases xs)
  case Nil
  then show ?thesis using assms by (simp add: np_argmin_def)
next
  case (Cons x rest)
  then have k: "k = argmin_scan rest 1 x 0"
    using assms by (simp add: np_argmin_def)
  have "argmin_scan rest 1 x 0 < length ([x] @ rest)
       \<and> (\<forall>j < length ([x] @ rest). ([x] @ rest) ! argmin_scan rest 1 x 0 \<le> ([x] @ rest) ! j)
       \<and> (\<forall>j < argmin_scan rest 1 x 0.
             ([x] @ rest) ! argmin_scan rest 1 x 0 < ([x] @ rest) ! j)"
    by (rule argmin_scan_first) simp_all
  then show ?thesis
    using k Cons by simp
qed


lemma argmax_scan_negate:
  "argmax_scan xs i best best_idx = argmin_scan (map uminus xs) i (- best) best_idx"
  by (induction xs arbitrary: i best best_idx) simp_all

lemma np_argmax_first:
  assumes "np_argmax xs = Inr k"
  shows "k < length xs \<and> (\<forall>j < length xs. xs ! j \<le> xs ! k) \<and> (\<forall>j < k. xs ! j < xs ! k)"
proof -
  have "np_argmin (map uminus xs) = Inr k"
    using assms by (cases xs) (simp_all add: np_argmax_def np_argmin_def argmax_scan_negate)
  from np_argmin_first [OF this] show ?thesis
    by auto
qed

lemma kept_points_sorted: "sorted_wrt (<) (filter P (dvfs_points_of results))"
  by (simp add: dvfs_points_of_def sorted_wrt_filter)

lemma earliest_of_ties:
  assumes "sorted_wrt (<) (zip vs fs)" and "length vs = length fs"
    and "i \<le> j" and "j < length fs"
  shows "(vs ! i :: rat) < vs ! j \<or> (vs ! i = vs ! j \<and> fs ! i \<le> (fs ! j :: rat))"
proof (cases "i = j")
  case True
  then show ?thesis by simp
next
  case False
  then have "i < j" using assms(3) by simp
  then have "zip vs fs ! i < zip vs fs ! j"
    using assms(1,2,4) by (intro sorted_wrt_nth_less) simp_all
  then have "vs ! i < vs ! j \<or> vs ! i \<le> vs ! j \<and> fs ! i < fs ! j"
    using assms(2,4) \<open>i < j\<close> by simp
  then show ?thesis
    by auto
qed

lemma efficiency_loop_acc:
  assumes "efficiency_loop results ps (fs, es, vs) = Inr (fs', es', vs')"
  shows "fs' = fs @ map snd (filter (\<lambda>p. baseline_result_at results p \<noteq> None) ps)
       \<and> vs' = vs @ map fst (filter (\<lambda>p. baseline_result_at results p \<noteq> None) ps)
       \<and> length es' = length es + length (filter (\<lambda>p. baseline_result_at results p \<noteq> None) ps)"
  using assms
proof (induction ps arbitrary: fs es vs)
  case Nil
  then show ?case by simp
next
  case (Cons p ps)
  obtain voltage frequency where p: "p = (voltage, frequency)"
    by (cases p)
  show ?case
  proof (cases "baseline_result_at results p")
    case None
    then have "efficiency_loop results ps (fs, es, vs) = Inr (fs', es', vs')"
      using Cons.prems p by (simp add: baseline_result_at_def)
    from Cons.IH [OF this] show ?thesis
      using None by simp
  next
    case (Some r)
    then have "efficiency_loop results ps
                 (fs @ [frequency], es @ [(m_ipc (r_metrics r) / m_avg_power (r_metrics r)) * 1000],
                  vs @ [voltage]) = Inr (fs', es', vs')"
      using Cons.prems p by (simp add: baseline_result_at_def Let_def split: if_splits)
    from Cons.IH [OF this] show ?thesis
      using Some p by simp
  qed
qed

lemma efficiency_loop_runs:
  assumes "\<forall>r\<in>set results. m_avg_power (r_metrics r) \<noteq> 0"
  shows "\<exists>out. efficiency_loop results ps (fs, es, vs) = Inr out"
proof (induction ps arbitrary: fs es vs)
  case Nil
  then show ?case by simp
next
  case (Cons p ps)
  obtain voltage frequency where p: "p = (voltage, frequency)"
    by (cases p)
  show ?case
  proof (cases "baseline_result_at results p")
    case None
    then show ?thesis
      using Cons.IH p by (simp add: baseline_result_at_def)
  next
    case (Some r)
    then have "r \<in> set results"
      by (auto simp: baseline_result_at_def find_Some_iff)
    then have "m_avg_power (r_metrics r) \<noteq> 0"
      using assms by simp
    then show ?thesis
      using Cons.IH Some p by (simp add: baseline_result_at_def)
  qed
qed


lemma energy_optimum_earliest:
  assumes "plot_energy_efficiency results = Inr (frequencies, voltages, avg_epi, optimal_idx)"
  shows "length frequencies = length avg_epi \<and> length voltages = length avg_epi
       \<and> sorted_wrt (<) (zip voltages frequencies)
       \<and> optimal_idx < length avg_epi
       \<and> (\<forall>j < length avg_epi. avg_epi ! optimal_idx \<le> avg_epi ! j)
       \<and> (\<forall>j < length avg_epi. avg_epi ! j = avg_epi ! optimal_idx \<longrightarrow>
             optimal_idx \<le> j
             \<and> (voltages ! optimal_idx < voltages ! j
                \<or> (voltages ! optimal_idx = voltages ! j
                   \<and> frequencies ! optimal_idx \<le> frequencies ! j)))"
proof -
  let ?kept = "filter (\<lambda>p. active_results_at results p \<noteq> []) (dvfs_points_of results)"
  have lists: "frequencies = map snd ?kept" "voltages = map fst ?kept"
      "length avg_epi = length ?kept"
    and arg: "np_argmin avg_epi = Inr optimal_idx"
    using assms
    by (auto simp: plot_energy_efficiency_def epi_loop_acc split: if_splits sum.splits)
  have len: "length frequencies = length avg_epi" "length voltages = length avg_epi"
    using lists by simp_all
  have "zip voltages frequencies = ?kept"
    unfolding lists by (simp add: zip_map_fst_snd)
  then have sorted: "sorted_wrt (<) (zip voltages frequencies)"
    by (simp add: kept_points_sorted)
  have first: "optimal_idx < length avg_epi"
      "\<forall>j < length avg_epi. avg_epi ! optimal_idx \<le> avg_epi ! j"
      "\<forall>j < optimal_idx. avg_epi ! optimal_idx < avg_epi ! j"
    using np_argmin_first [OF arg] by simp_all
  have "optimal_idx \<le> j
        \<and> (voltages ! optimal_idx < voltages ! j
           \<or> (voltages ! optimal_idx = voltages ! j
              \<and> frequencies ! optimal_idx \<le> frequencies ! j))"
    if j: "j < length avg_epi" "avg_epi ! j = avg_epi ! optimal_idx" for j
  proof -
    have le: "optimal_idx \<le> j"
    proof (rule ccontr)
      assume "\<not> optimal_idx \<le> j"
      then have "avg_epi ! optimal_idx < avg_epi ! j"
        using first(3) by simp
      then show False using j(2) by simp
    qed
    show ?thesis
      using le earliest_of_ties [OF sorted, of optimal_idx j] len j(1) by simp
  qed
  then show ?thesis
    using len sorted first(1,2) by blast
qed

lemma efficiency_optimum_earliest:
  assumes "plot_dvfs_efficiency_curve results
           = Inr (frequencies, efficiencies, voltages, optimal_idx)"
  shows "length frequencies = length efficiencies \<and> length voltages = length efficiencies
       \<and> sorted_wrt (<) (zip voltages frequencies)
       \<and> optimal_idx < length efficiencies
       \<and> (\<forall>j < length efficiencies. efficiencies ! j \<le> efficiencies ! optimal_idx)
       \<and> (\<forall>j < length efficiencies. efficiencies ! j = efficiencies ! optimal_idx \<longrightarrow>
             optimal_idx \<le> j
             \<and> (voltages ! optimal_idx < voltages ! j
                \<or> (voltages ! optimal_idx = voltages ! j
                   \<and> frequencies ! optimal_idx \<le> frequencies ! j)))"
proof -
  let ?kept = "filter (\<lambda>p. baseline_result_at results p \<noteq> None) (dvfs_points_of results)"
  have loop: "efficiency_loop results (dvfs_points_of results) ([], [], [])
              = Inr (frequencies, efficiencies, voltages)"
    and arg: "np_argmax efficiencies = Inr optimal_idx"
    using assms by (auto simp: plot_dvfs_efficiency_curve_def split: sum.splits)
  have lists: "frequencies = map snd ?kept" "voltages = map fst ?kept"
      "length efficiencies = length ?kept"
    using efficiency_loop_acc [OF loop] by simp_all
  have len: "length frequencies = length efficiencies" "length voltages = length efficiencies"
    using lists by simp_all
  have "zip voltages frequencies = ?kept"
    unfolding lists by (simp add: zip_map_fst_snd)
  then have sorted: "sorted_wrt (<) (zip voltages frequencies)"
    by (simp add: kept_points_sorted)
  have first: "optimal_idx < length efficiencies"
      "\<forall>j < length efficiencies. efficiencies ! j \<le> efficiencies ! optimal_idx"
      "\<forall>j < optimal_idx. efficiencies ! j < efficiencies ! optimal_idx"
    using np_argmax_first [OF arg] by simp_all
  have "optimal_idx \<le> j
        \<and> (voltages ! optimal_idx < voltages ! j
           \<or> (voltages ! optimal_idx = voltages ! j
              \<and> frequencies ! optimal_idx \<le> frequencies ! j))"
    if j: "j < length efficiencies" "efficiencies ! j = efficiencies ! optimal_idx" for j
  proof -
    have le: "optimal_idx \<le> j"
    proof (rule ccontr)
      assume "\<not> optimal_idx \<le> j"
      then have "efficiencies ! j < efficiencies ! optimal_idx"
        using first(3) by simp
      then show False using j(2) by simp
    qed
    show ?thesis
      using le earliest_of_ties [OF sorted, of optimal_idx j] len j(1) by simp
  qed
  then show ?thesis
    using len sorted first(1,2) by blast
qed

lemma energy_optimum_exists:
  assumes "\<exists>r\<in>set results. r_workload r \<noteq> ''idle_scenario''"
  shows "\<exists>fs vs es i. plot_energy_efficiency results = Inr (fs, vs, es, i)"
proof -
  obtain r where r: "r \<in> set results" "r_workload r \<noteq> ''idle_scenario''"
    using assms by blast
  let ?p = "(r_voltage r, r_frequency r)"
  have "r \<in> set (active_results_at results ?p)"
    using r by (simp add: active_results_at_def)
  then have "active_results_at results ?p \<noteq> []"
    by auto
  moreover have "?p \<in> set (dvfs_points_of results)"
    using r(1) by (auto simp: dvfs_points_of_def)
  ultimately have kept: "filter (\<lambda>p. active_results_at results p \<noteq> []) (dvfs_points_of results) \<noteq> []"
    by (auto simp: filter_empty_conv)
  then show ?thesis
    by (auto simp: plot_energy_efficiency_def epi_loop_acc np_argmin_def split: list.splits)
qed

lemma efficiency_optimum_exists:
  assumes "\<exists>r\<in>set results. r_workload r = ''healthcare_monitor_test''"
    and "\<forall>r\<in>set results. m_avg_power (r_metrics r) \<noteq> 0"
  shows "\<exists>fs es vs i. plot_dvfs_efficiency_curve results = Inr (fs, es, vs, i)"
proof -
  obtain r where r: "r \<in> set results" "r_workload r = ''healthcare_monitor_test''"
    using assms(1) by blast
  let ?p = "(r_voltage r, r_frequency r)"
  obtain out where "efficiency_loop results (dvfs_points_of results) ([], [], []) = Inr out"
    using efficiency_loop_runs [OF assms(2)] by blast
  then obtain fs es vs where loop:
      "efficiency_loop results (dvfs_points_of results) ([], [], []) = Inr (fs, es, vs)"
    by (cases out) auto
  have "baseline_result_at results ?p \<noteq> None"
    using r by (auto simp: baseline_result_at_def find_None_iff)
  moreover have "?p \<in> set (dvfs_points_of results)"
    using r(1) by (auto simp: dvfs_points_of_def)
  ultimately have "filter (\<lambda>p. baseline_result_at results p \<noteq> None) (dvfs_points_of results) \<noteq> []"
    by (auto simp: filter_empty_conv)
  then have "es \<noteq> []"
    using efficiency_loop_acc [OF loop] by auto
  then show ?thesis
    using loop by (auto simp: plot_dvfs_efficiency_curve_def np_argmax_def split: list.splits)
qed

text \<open>
  C3. The optimum that is marked: over the table of kept operating points (sorted by
  voltage, then frequency, no point twice) the energy plot marks a point whose mean energy
  per instruction is minimal, and the efficiency plot a point whose efficiency is maximal;
  every other point of the table with the same value comes later in the table and is
  lexicographically greater, so among equals the earliest point is chosen, whatever the
  order of the entries. A result exists as soon as one entry is not idle (energy), and as
  soon as one baseline entry exists and no average power is zero (efficiency).
\<close>

theorem optimum_is_earliest_extreme:
  "(plot_energy_efficiency results = Inr (frequencies, voltages, avg_epi, optimal_idx) \<longrightarrow>
       length frequencies = length avg_epi \<and> length voltages = length avg_epi
     \<and> sorted_wrt (<) (zip voltages frequencies)
     \<and> optimal_idx < length avg_epi
     \<and> (\<forall>j < length avg_epi. avg_epi ! optimal_idx \<le> avg_epi ! j)
     \<and> (\<forall>j < length avg_epi. avg_epi ! j = avg_epi ! optimal_idx \<longrightarrow>
           optimal_idx \<le> j
           \<and> (voltages ! optimal_idx < voltages ! j
              \<or> (voltages ! optimal_idx = voltages ! j
                 \<and> frequencies ! optimal_idx \<le> frequencies ! j))))
   \<and> (plot_dvfs_efficiency_curve results = Inr (frequencies', efficiencies, voltages', optimal_idx')
       \<longrightarrow>
       length frequencies' = length efficiencies \<and> length voltages' = length efficiencies
     \<and> sorted_wrt (<) (zip voltages' frequencies')
     \<and> optimal_idx' < length efficiencies
     \<and> (\<forall>j < length efficiencies. efficiencies ! j \<le> efficiencies ! optimal_idx')
     \<and> (\<forall>j < length efficiencies. efficiencies ! j = efficiencies ! optimal_idx' \<longrightarrow>
           optimal_idx' \<le> j
           \<and> (voltages' ! optimal_idx' < voltages' ! j
              \<or> (voltages' ! optimal_idx' = voltages' ! j
                 \<and> frequencies' ! optimal_idx' \<le> frequencies' ! j))))
   \<and> ((\<exists>r\<in>set results. r_workload r \<noteq> ''idle_scenario'')
       \<longrightarrow> (\<exists>fs vs es i. plot_energy_efficiency results = Inr (fs, vs, es, i)))
   \<and> ((\<exists>r\<in>set results. r_workload r = ''healthcare_monitor_test'')
        \<and> (\<forall>r\<in>set results. m_avg_power (r_metrics r) \<noteq> 0)
       \<longrightarrow> (\<exists>fs es vs i. plot_dvfs_efficiency_curve results = Inr (fs, es, vs, i)))"
  using energy_optimum_earliest [of results frequencies voltages avg_epi optimal_idx]
    efficiency_optimum_earliest [of results frequencies' efficiencies voltages' optimal_idx']
    energy_optimum_exists [of results] efficiency_optimum_exists [of results]
  by blast

theorem optimum_is_earliest_extreme_witness:
  "plot_energy_efficiency [baseline_entry, first_entry]
     = Inr ([50, 100], [3 / 5, 7 / 10], [1 / 2000, 1 / 2000], 0)
   \<and> plot_dvfs_efficiency_curve [baseline_entry, first_entry]
     = Inr ([50, 100], [6620 / 149, 1125 / 61], [3 / 5, 7 / 10], 0)
   \<and> sorted_wrt (<) (zip [3 / 5, 7 / 10 :: rat] [50, 100 :: rat])
   \<and> [1 / 2000, 1 / 2000 :: rat] ! 0 \<le> [1 / 2000, 1 / 2000] ! 1
   \<and> [1 / 2000, 1 / 2000 :: rat] ! 1 = [1 / 2000, 1 / 2000] ! 0
   \<and> [3 / 5, 7 / 10 :: rat] ! 0 < [3 / 5, 7 / 10] ! 1
   \<and> [6620 / 149, 1125 / 61 :: rat] ! 1 \<le> [6620 / 149, 1125 / 61] ! 0
   \<and> first_entry \<in> set [baseline_entry, first_entry]
   \<and> r_workload first_entry \<noteq> ''idle_scenario''
   \<and> r_workload first_entry = ''healthcare_monitor_test''
   \<and> m_avg_power (r_metrics first_entry) \<noteq> 0
   \<and> m_avg_power (r_metrics baseline_entry) \<noteq> 0"
proof -
  have pts: "dvfs_points_of [baseline_entry, first_entry] = [(3 / 5, 50), (7 / 10, 100)]"
    by (simp add: dvfs_points_of_def baseline_entry_def first_entry_def)
  have energy: "plot_energy_efficiency [baseline_entry, first_entry]
                = Inr ([50, 100], [3 / 5, 7 / 10], [1 / 2000, 1 / 2000], 0)"
    by (simp add: plot_energy_efficiency_def pts)
       (simp add: baseline_entry_def first_entry_def np_argmin_def np_mean_def)
  have curve: "plot_dvfs_efficiency_curve [baseline_entry, first_entry]
               = Inr ([50, 100], [6620 / 149, 1125 / 61], [3 / 5, 7 / 10], 0)"
    by (simp add: plot_dvfs_efficiency_curve_def pts)
       (simp add: baseline_entry_def first_entry_def np_argmax_def)
  show ?thesis
    using energy curve
      optimum_is_earliest_extreme [of "[baseline_entry, first_entry]"
        "[50, 100]" "[3 / 5, 7 / 10]" "[1 / 2000, 1 / 2000]" 0
        "[50, 100]" "[6620 / 149, 1125 / 61]" "[3 / 5, 7 / 10]" 0]
    by (simp add: baseline_entry_def first_entry_def)
qed

subsection \<open>Two calls of the generator\<close>

text \<open>The analysis does not read the two cache hit rates.\<close>

lemma without_hit_rates_fields:
  "r_voltage (without_hit_rates r) = r_voltage r"
  "r_frequency (without_hit_rates r) = r_frequency r"
  "r_workload (without_hit_rates r) = r_workload r"
  "m_energy_per_inst (r_metrics (without_hit_rates r)) = m_energy_per_inst (r_metrics r)"
  "m_ipc (r_metrics (without_hit_rates r)) = m_ipc (r_metrics r)"
  "m_avg_power (r_metrics (without_hit_rates r)) = m_avg_power (r_metrics r)"
  by (simp_all add: without_hit_rates_def)

lemma dvfs_points_of_without_hit_rates:
  "dvfs_points_of (map without_hit_rates results) = dvfs_points_of results"
  by (simp add: dvfs_points_of_def without_hit_rates_fields comp_def)

lemma active_results_at_without_hit_rates:
  "active_results_at (map without_hit_rates results) p
   = map without_hit_rates (active_results_at results p)"
  by (simp add: active_results_at_def filter_map comp_def without_hit_rates_fields)

lemma plot_energy_efficiency_without_hit_rates:
  "plot_energy_efficiency (map without_hit_rates results) = plot_energy_efficiency results"
  by (simp add: plot_energy_efficiency_def epi_loop_acc dvfs_points_of_without_hit_rates
      active_results_at_without_hit_rates comp_def without_hit_rates_fields)

lemma baseline_result_at_without_hit_rates:
  "baseline_result_at (map without_hit_rates results) p
   = map_option without_hit_rates (baseline_result_at results p)"
  unfolding baseline_result_at_def
  by (induction results) (simp_all add: without_hit_rates_fields)

lemma efficiency_loop_without_hit_rates:
  "efficiency_loop (map without_hit_rates results) ps (fs, es, vs)
   = efficiency_loop results ps (fs, es, vs)"
proof (induction ps arbitrary: fs es vs)
  case Nil
  then show ?case by simp
next
  case (Cons p ps)
  obtain voltage frequency where p: "p = (voltage, frequency)"
    by (cases p)
  have at: "find (\<lambda>r. r_voltage r = voltage \<and> r_frequency r = frequency
                        \<and> r_workload r = ''healthcare_monitor_test'')
              (map without_hit_rates results)
            = map_option without_hit_rates
                (find (\<lambda>r. r_voltage r = voltage \<and> r_frequency r = frequency
                            \<and> r_workload r = ''healthcare_monitor_test'') results)"
    using baseline_result_at_without_hit_rates [of results "(voltage, frequency)"]
    by (simp add: baseline_result_at_def)
  show ?case
    unfolding p
    by (simp add: at Cons.IH without_hit_rates_fields Let_def split: option.splits)
qed

lemma plot_dvfs_efficiency_curve_without_hit_rates:
  "plot_dvfs_efficiency_curve (map without_hit_rates results)
   = plot_dvfs_efficiency_curve results"
  by (simp add: plot_dvfs_efficiency_curve_def efficiency_loop_without_hit_rates
      dvfs_points_of_without_hit_rates)

text \<open>
  C9 (as amended). Producing the collection of entries is deterministic but for two
  fields: for any two states of the global random generator the sample generator
  returns, without failing, the same entries except for \<^verbatim>\<open>icache_hit_rate\<close> and
  \<^verbatim>\<open>dcache_hit_rate\<close>, which it draws from that generator. The aggregation and the
  choice of the optimum read neither field: the energy table with its optimum and the
  efficiency curve with its optimum are the same for the collections of any two calls.
\<close>

theorem sample_data_random_only_in_hit_rates:
  "\<exists>rs1 h1 rs2 h2.
      generate_sample_dvfs_data g1 = Inr (rs1, h1)
      \<and> generate_sample_dvfs_data g2 = Inr (rs2, h2)
      \<and> map without_hit_rates rs1 = map without_hit_rates rs2
      \<and> plot_energy_efficiency rs1 = plot_energy_efficiency rs2
      \<and> plot_dvfs_efficiency_curve rs1 = plot_dvfs_efficiency_curve rs2"
proof -
  obtain rs1 h1 where one: "generate_sample_dvfs_data g1 = Inr (rs1, h1)"
    using generate_sample_runs [of g1] by blast
  obtain rs2 h2 where two: "generate_sample_dvfs_data g2 = Inr (rs2, h2)"
    using generate_sample_runs [of g2] by blast
  have "rel_sum (=) (\<lambda>s s'. map without_hit_rates (fst s) = map without_hit_rates (fst s'))
          (point_loop dvfs_points ([], g1)) (point_loop dvfs_points ([], g2))"
    by (intro point_loop_rng) simp
  then have same: "map without_hit_rates rs1 = map without_hit_rates rs2"
    using one two by (simp add: generate_sample_dvfs_data_def)
  have "plot_energy_efficiency rs1 = plot_energy_efficiency rs2"
    using same plot_energy_efficiency_without_hit_rates [of rs1]
      plot_energy_efficiency_without_hit_rates [of rs2] by simp
  moreover have "plot_dvfs_efficiency_curve rs1 = plot_dvfs_efficiency_curve rs2"
    using same plot_dvfs_efficiency_curve_without_hit_rates [of rs1]
      plot_dvfs_efficiency_curve_without_hit_rates [of rs2] by simp
  ultimately show ?thesis
    using one two same by blast
qed

text \<open>
  The claim as stated fails: two calls of the generator (it takes no argument) return
  different collections of entries when the random generator is in different states; here
  the first cache hit rate is 0.935 in one call and 0.945 in the other.
\<close>

theorem sample_data_varies_with_random_state:
  "map_sum id fst (generate_sample_dvfs_data (\<lambda>n. 0))
   \<noteq> map_sum id fst (generate_sample_dvfs_data (\<lambda>n. 1 / 2))"
proof
  assume eq: "map_sum id fst (generate_sample_dvfs_data (\<lambda>n. 0))
              = map_sum id fst (generate_sample_dvfs_data (\<lambda>n. 1 / 2))"
  obtain rs h where a: "generate_sample_dvfs_data (\<lambda>n. 0) = Inr (rs, h)"
      "m_icache_hit_rate (r_metrics (hd rs)) = py_round (0.945 + (- 0.01 + 0.02 * 0)) 4"
    using first_entry_icache [of "\<lambda>n. 0"] by blast
  obtain rs' h' where b: "generate_sample_dvfs_data (\<lambda>n. 1 / 2) = Inr (rs', h')"
      "m_icache_hit_rate (r_metrics (hd rs')) = py_round (0.945 + (- 0.01 + 0.02 * (1 / 2))) 4"
    using first_entry_icache [of "\<lambda>n. 1 / 2"] by blast
  have "rs = rs'"
    using eq a(1) b(1) by simp
  then have "py_round (0.945 + (- 0.01 + 0.02 * 0)) 4
             = py_round (0.945 + (- 0.01 + 0.02 * (1 / 2))) 4"
    using a(2) b(2) by simp
  then show False
    by (simp add: py_round_def round_half_even_def)
qed

end
